theory Spec2Isabelle
  imports Main
begin

section \<open>Data model (src/models/Interview.js)\<close>

text \<open>
  An instant is the millisecond count of a JavaScript \<^verbatim>\<open>Date\<close> (\<^verbatim>\<open>getTime()\<close>).
  Object ids are opaque; they are modelled as natural numbers. The schema field
  \<^verbatim>\<open>duration\<close> has type \<^verbatim>\<open>Number\<close> with a default and no validator, so a document
  can hold any number: the model keeps the integer ones, negative and zero included.
  The schema's \<^verbatim>\<open>_id\<close> is \<open>iid\<close> and its \<^verbatim>\<open>type\<close> is \<open>itype\<close>, its \<^verbatim>\<open>notes\<close> is \<open>inotes\<close>. The bookkeeping stamps
  \<^verbatim>\<open>createdAt\<close>/\<^verbatim>\<open>updatedAt\<close> that the library maintains are not part of the model.
\<close>

type_synonym instant = int
type_synonym object_id = nat

datatype status = Scheduled | InProgress | Completed | Cancelled | Expired

datatype interview_type = AiInterview | HrInterview

record interview =
  iid :: object_id
  user :: object_id
  job :: object_id
  scheduledAt :: instant
  duration :: int
  status :: status
  itype :: interview_type
  meetingRoom :: "string option"
  inotes :: "string option"
  startedAt :: "instant option"
  completedAt :: "instant option"

text \<open>The end of the booked slot, \<^verbatim>\<open>scheduledAt.getTime() + duration * 60 * 1000\<close>.\<close>

definition endTime :: "interview \<Rightarrow> instant" where
  "endTime d = scheduledAt d + duration d * 60 * 1000"




text \<open>
  The collection: its documents in insertion order, and the next fresh \<^verbatim>\<open>_id\<close> (the
  driver's generator of object ids).
\<close>

record store =
  docs :: "interview list"
  nextId :: object_id

definition emptyStore :: store where
  "emptyStore = \<lparr>docs = [], nextId = 0\<rparr>"

text \<open>The job collaborator: a job document carries the list of its applications.\<close>

record application =
  app_user :: object_id

record job_doc =
  applications :: "application list"

type_synonym jobs = "object_id \<Rightarrow> job_doc option"

section \<open>Statics of the model (src/models/Interview.js)\<close>

text \<open>
  The query of \<^verbatim>\<open>checkTimeConflict\<close>: a status filter, a disjunction of three range
  clauses, and the optional exclusion of one id. There is no filter on \<^verbatim>\<open>user\<close> or
  on \<^verbatim>\<open>job\<close>.
\<close>

definition conflictQuery :: "instant \<Rightarrow> instant \<Rightarrow> object_id option \<Rightarrow> interview \<Rightarrow> bool" where
  "conflictQuery startTime endT excludeId d =
     ((status d = Scheduled \<or> status d = InProgress) \<and>
      ((scheduledAt d \<le> startTime \<and> scheduledAt d + duration d * 60000 > startTime) \<or>
       (scheduledAt d < endT \<and> scheduledAt d + duration d * 60000 > endT) \<or>
       (scheduledAt d \<ge> startTime \<and> scheduledAt d + duration d * 60000 \<le> endT)) \<and>
      (case excludeId of None \<Rightarrow> True | Some x \<Rightarrow> iid d \<noteq> x))"

definition checkTimeConflict ::
  "interview list \<Rightarrow> instant \<Rightarrow> int \<Rightarrow> object_id option \<Rightarrow> interview option" where
  "checkTimeConflict ds sAt dur excludeId =
     (let startTime = sAt;
          endT = startTime + dur * 60 * 1000
      in find (conflictQuery startTime endT excludeId) ds)"

text \<open>
  \<^verbatim>\<open>cleanupExpiredInterviews\<close>: one \<^verbatim>\<open>updateMany\<close> with a filter and a \<^verbatim>\<open>$set\<close>; the
  result carries the number of modified documents.
\<close>

definition expiredQuery :: "instant \<Rightarrow> interview \<Rightarrow> bool" where
  "expiredQuery now d =
     (status d = Scheduled \<and> scheduledAt d + duration d * 60000 < now)"

definition cleanupExpiredInterviews :: "store \<Rightarrow> instant \<Rightarrow> nat \<times> store" where
  "cleanupExpiredInterviews st now =
     (length (filter (expiredQuery now) (docs st)),
      st\<lparr>docs := map (\<lambda>d. if expiredQuery now d then d\<lparr>status := Expired\<rparr> else d) (docs st)\<rparr>)"

section \<open>Store primitives used by the routes\<close>

text \<open>\<^verbatim>\<open>Interview.findOne({ _id: interviewId, user: userId })\<close>.\<close>

definition findOne :: "interview list \<Rightarrow> object_id \<Rightarrow> object_id \<Rightarrow> interview option" where
  "findOne ds interviewId userId = find (\<lambda>d. iid d = interviewId \<and> user d = userId) ds"

text \<open>\<^verbatim>\<open>interview.save()\<close> on a loaded document: the document with that id is rewritten.\<close>

fun save :: "interview \<Rightarrow> interview list \<Rightarrow> interview list" where
  "save d [] = []"
| "save d (x # xs) = (if iid x = iid d then d # xs else x # save d xs)"

text \<open>\<^verbatim>\<open>Interview.findByIdAndDelete(interviewId)\<close>: the document with that id is removed.\<close>

fun findByIdAndDelete :: "object_id \<Rightarrow> interview list \<Rightarrow> interview list" where
  "findByIdAndDelete i [] = []"
| "findByIdAndDelete i (x # xs) = (if iid x = i then xs else x # findByIdAndDelete i xs)"

section \<open>Route handlers (src/routes/interviews.js)\<close>

text \<open>
  Every response that is not a success is a value of \<open>error\<close>, named after the spec's
  taxonomy; the response of the code is given beside each.
\<close>

datatype error =
    MissingFields          \<comment> \<open>400 "Job ID and scheduled time are required"\<close>
  | JobNotFound            \<comment> \<open>404 "Job not found"\<close>
  | NotApplied             \<comment> \<open>400 "You must apply to this job before scheduling an interview"\<close>
  | InvalidTime            \<comment> \<open>400 "Interview must be scheduled for a future time"\<close>
  | SlotConflict           \<comment> \<open>400 "Time slot is already booked. Please choose a different time."\<close>
  | NotFound               \<comment> \<open>404 "Interview not found"\<close>
  | TooEarly int           \<comment> \<open>400 "Interview has not started yet", with \<^verbatim>\<open>timeUntilStart\<close>\<close>
  | WindowExpired          \<comment> \<open>400 "Interview time has expired"\<close>
  | InvalidTransition      \<comment> \<open>400 "Interview cannot be started" / "Interview is not in progress"\<close>
  | CannotCancelCompleted  \<comment> \<open>400 "Cannot cancel completed interview"\<close>

text \<open>
  The body of \<^verbatim>\<open>POST /schedule\<close>. \<open>None\<close> is a field that is absent (or falsy, for the
  two required ones); \<open>req_scheduledAt\<close> is the instant that \<^verbatim>\<open>new Date(scheduledAt)\<close>
  parses. Strings that parse to no date are outside the model.
\<close>

record schedule_body =
  req_jobId :: "object_id option"
  req_scheduledAt :: "instant option"
  req_duration :: "int option"

definition hasApplied :: "job_doc \<Rightarrow> object_id \<Rightarrow> bool" where
  "hasApplied j userId = list_ex (\<lambda>app. app_user app = userId) (applications j)"

definition newInterview :: "object_id \<Rightarrow> object_id \<Rightarrow> object_id \<Rightarrow> instant \<Rightarrow> int \<Rightarrow> interview" where
  "newInterview i userId jid sAt dur =
     \<lparr>iid = i, user = userId, job = jid, scheduledAt = sAt, duration = dur,
      status = Scheduled, itype = AiInterview, meetingRoom = None, inotes = None,
      startedAt = None, completedAt = None\<rparr>"

definition schedule ::
  "store \<Rightarrow> jobs \<Rightarrow> instant \<Rightarrow> object_id \<Rightarrow> schedule_body \<Rightarrow> (error + interview) \<times> store" where
  "schedule st js now userId body =
     (let dur = (case req_duration body of None \<Rightarrow> 10 | Some x \<Rightarrow> x) in
      case req_jobId body of
        None \<Rightarrow> (Inl MissingFields, st)
      | Some jid \<Rightarrow>
         (case req_scheduledAt body of
            None \<Rightarrow> (Inl MissingFields, st)
          | Some scheduledDate \<Rightarrow>
             (case js jid of
                None \<Rightarrow> (Inl JobNotFound, st)
              | Some j \<Rightarrow>
                  if \<not> hasApplied j userId then (Inl NotApplied, st)
                  else if scheduledDate \<le> now then (Inl InvalidTime, st)
                  else
                    (case checkTimeConflict (docs st) scheduledDate dur None of
                       Some conflict \<Rightarrow> (Inl SlotConflict, st)
                     | None \<Rightarrow>
                         (let d = newInterview (nextId st) userId jid scheduledDate dur
                          in (Inr d, st\<lparr>docs := docs st @ [d], nextId := Suc (nextId st)\<rparr>))))))"

definition cancel :: "store \<Rightarrow> object_id \<Rightarrow> object_id \<Rightarrow> (error + unit) \<times> store" where
  "cancel st interviewId userId =
     (case findOne (docs st) interviewId userId of
        None \<Rightarrow> (Inl NotFound, st)
      | Some d \<Rightarrow>
          if status d = Completed then (Inl CannotCancelCompleted, st)
          else (Inr (), st\<lparr>docs := findByIdAndDelete interviewId (docs st)\<rparr>))"

definition start :: "store \<Rightarrow> instant \<Rightarrow> object_id \<Rightarrow> object_id \<Rightarrow> (error + interview) \<times> store" where
  "start st now interviewId userId =
     (case findOne (docs st) interviewId userId of
        None \<Rightarrow> (Inl NotFound, st)
      | Some d \<Rightarrow>
         (let untilStart = scheduledAt d - now;
              untilEnd = scheduledAt d + duration d * 60 * 1000 - now
          in if untilStart > 0 then (Inl (TooEarly untilStart), st)
             else if untilEnd \<le> 0 then (Inl WindowExpired, st)
             else if status d \<noteq> Scheduled then (Inl InvalidTransition, st)
             else
               (let d' = d\<lparr>status := InProgress, startedAt := Some now\<rparr>
                in (Inr d', st\<lparr>docs := save d' (docs st)\<rparr>))))"

text \<open>
  \<^verbatim>\<open>if (notes)\<close> is JavaScript truthiness: an absent field and the empty string are
  both falsy.
\<close>

definition truthy :: "string option \<Rightarrow> bool" where
  "truthy s = (case s of None \<Rightarrow> False | Some t \<Rightarrow> t \<noteq> [])"

definition complete ::
  "store \<Rightarrow> instant \<Rightarrow> object_id \<Rightarrow> object_id \<Rightarrow> string option \<Rightarrow> (error + interview) \<times> store" where
  "complete st now interviewId userId ns =
     (case findOne (docs st) interviewId userId of
        None \<Rightarrow> (Inl NotFound, st)
      | Some d \<Rightarrow>
          if status d \<noteq> InProgress then (Inl InvalidTransition, st)
          else
            (let d1 = d\<lparr>status := Completed, completedAt := Some now\<rparr>;
                 d2 = (if truthy ns then d1\<lparr>inotes := ns\<rparr> else d1)
             in (Inr d2, st\<lparr>docs := save d2 (docs st)\<rparr>)))"



section \<open>Notions of the specification\<close>

text \<open>An interview is active while its status is \<^verbatim>\<open>scheduled\<close> or \<^verbatim>\<open>in-progress\<close>.\<close>

definition active :: "interview \<Rightarrow> bool" where
  "active d = (status d = Scheduled \<or> status d = InProgress)"

text \<open>
  The specification's conflict test, in its own words: two half-open intervals
  \<open>[s1, e1)\<close> and \<open>[s2, e2)\<close> conflict iff \<open>s1 < e2 \<and> s2 < e1\<close>.
\<close>

definition overlap_spec :: "instant \<Rightarrow> instant \<Rightarrow> instant \<Rightarrow> instant \<Rightarrow> bool" where
  "overlap_spec s1 e1 s2 e2 = (s1 < e2 \<and> s2 < e1)"

definition slotsOverlap :: "interview \<Rightarrow> interview \<Rightarrow> bool" where
  "slotsOverlap a b = overlap_spec (scheduledAt a) (endTime a) (scheduledAt b) (endTime b)"

text \<open>
  Exclusivity of a collection: no two active documents have overlapping slots. The
  second predicate restricts the pairs to those of one candidate, as the
  specification's invariant does.
\<close>

fun exclusive :: "interview list \<Rightarrow> bool" where
  "exclusive [] = True"
| "exclusive (d # ds) =
     (list_all (\<lambda>x. \<not> (active d \<and> active x \<and> slotsOverlap d x)) ds \<and> exclusive ds)"

fun candidateExclusive :: "interview list \<Rightarrow> bool" where
  "candidateExclusive [] = True"
| "candidateExclusive (d # ds) =
     (list_all (\<lambda>x. \<not> (user d = user x \<and> active d \<and> active x \<and> slotsOverlap d x)) ds \<and>
      candidateExclusive ds)"

text \<open>
  The stores that the routes can produce: from the empty collection, by any sequence of
  the five operations that write, each with any arguments and any clock reading.
\<close>

inductive reachable :: "store \<Rightarrow> bool" where
  r_init: "reachable emptyStore"
| r_schedule: "reachable st \<Longrightarrow> reachable (snd (schedule st js now userId body))"
| r_cancel: "reachable st \<Longrightarrow> reachable (snd (cancel st interviewId userId))"
| r_start: "reachable st \<Longrightarrow> reachable (snd (start st now interviewId userId))"
| r_complete: "reachable st \<Longrightarrow> reachable (snd (complete st now interviewId userId ns))"
| r_cleanup: "reachable st \<Longrightarrow> reachable (snd (cleanupExpiredInterviews st now))"

text \<open>
  The invariant of the collection: distinct ids, all below the generator's next id, and
  exclusivity.
\<close>

definition storeInv :: "store \<Rightarrow> bool" where
  "storeInv st =
     (distinct (map iid (docs st)) \<and>
      list_all (\<lambda>d. iid d < nextId st) (docs st) \<and>
      exclusive (docs st))"

section \<open>A sample job collection\<close>

text \<open>Job 7 with applications from the candidates 1 and 2; no other job.\<close>

definition sampleJobs :: jobs where
  "sampleJobs =
     (\<lambda>j. if j = 7 then Some \<lparr>applications = [\<lparr>app_user = 1\<rparr>, \<lparr>app_user = 2\<rparr>]\<rparr> else None)"

section \<open>Auxiliary facts\<close>

lemma find_None_conv: "(find P xs = None) = (\<not> (\<exists>x\<in>set xs. P x))"
  by (auto simp: find_None_iff)

lemma overlap_imp_conflictQuery:
  "active d \<Longrightarrow> overlap_spec s e (scheduledAt d) (endTime d) \<Longrightarrow> conflictQuery s e None d"
  by (auto simp: overlap_spec_def conflictQuery_def active_def endTime_def)

lemma conflictQuery_positive:
  "s < e \<Longrightarrow> 0 < duration d \<Longrightarrow>
   conflictQuery s e None d = (active d \<and> overlap_spec s e (scheduledAt d) (endTime d))"
  by (auto simp: overlap_spec_def conflictQuery_def active_def endTime_def)

lemma findOne_SomeD:
  "findOne ds i u = Some d \<Longrightarrow> d \<in> set ds \<and> iid d = i \<and> user d = u"
  unfolding findOne_def by (auto simp: find_Some_iff)

lemma findOne_None_conv:
  "(findOne ds i u = None) = (\<not> (\<exists>d\<in>set ds. iid d = i \<and> user d = u))"
  unfolding findOne_def by (rule find_None_conv)


lemma start_found:
  "findOne (docs st) i u = Some d \<Longrightarrow>
   start st now i u =
     (if now < scheduledAt d then (Inl (TooEarly (scheduledAt d - now)), st)
      else if endTime d \<le> now then (Inl WindowExpired, st)
      else if status d \<noteq> Scheduled then (Inl InvalidTransition, st)
      else (Inr (d\<lparr>status := InProgress, startedAt := Some now\<rparr>),
            st\<lparr>docs := save (d\<lparr>status := InProgress, startedAt := Some now\<rparr>) (docs st)\<rparr>))"
  by (simp add: start_def Let_def endTime_def)

lemma expired_update_neq: "status d = Scheduled \<Longrightarrow> d\<lparr>status := Expired\<rparr> \<noteq> d"
proof
  assume s: "status d = Scheduled" and e: "d\<lparr>status := Expired\<rparr> = d"
  from e have "status (d\<lparr>status := Expired\<rparr>) = status d" by simp
  with s show False by simp
qed

lemma sweep_changed_conv:
  "((if expiredQuery now d then d\<lparr>status := Expired\<rparr> else d) \<noteq> d) = expiredQuery now d"
  using expired_update_neq[of d] by (auto simp: expiredQuery_def)

lemma sweep_no_longer_expired:
  "\<not> expiredQuery now (if expiredQuery now d then d\<lparr>status := Expired\<rparr> else d)"
  by (auto simp: expiredQuery_def)

lemma expiredQuery_endTime: "expiredQuery now d = (status d = Scheduled \<and> endTime d < now)"
  by (simp add: expiredQuery_def endTime_def mult.commute)

lemma cleanup_docs:
  "docs (snd (cleanupExpiredInterviews st now)) =
     map (\<lambda>d. if expiredQuery now d then d\<lparr>status := Expired\<rparr> else d) (docs st)"
  by (simp add: cleanupExpiredInterviews_def)

lemma cleanup_count:
  "fst (cleanupExpiredInterviews st now) = length (filter (expiredQuery now) (docs st))"
  by (simp add: cleanupExpiredInterviews_def)

lemma cleanup_twice:
  "cleanupExpiredInterviews (snd (cleanupExpiredInterviews st now)) now =
     (0, snd (cleanupExpiredInterviews st now))"
proof -
  let ?f = "\<lambda>d. if expiredQuery now d then d\<lparr>status := Expired\<rparr> else d"
  have none: "filter (expiredQuery now) (map ?f xs) = []" for xs
    by (induction xs) (auto simp: expiredQuery_def)
  have same: "map ?f (map ?f xs) = map ?f xs" for xs
    by (induction xs) (auto simp: expiredQuery_def)
  show ?thesis
    unfolding cleanupExpiredInterviews_def by (simp add: none same del: map_map)
qed

lemma hasApplied_conv: "hasApplied j u = (u \<in> app_user ` set (applications j))"
  by (auto simp: hasApplied_def list_ex_iff)

lemma schedule_present:
  "schedule st js now u \<lparr>req_jobId = Some jid, req_scheduledAt = Some t, req_duration = dur\<rparr> =
     (case js jid of
        None \<Rightarrow> (Inl JobNotFound, st)
      | Some j \<Rightarrow>
          if \<not> hasApplied j u then (Inl NotApplied, st)
          else if t \<le> now then (Inl InvalidTime, st)
          else if checkTimeConflict (docs st) t (case dur of None \<Rightarrow> 10 | Some x \<Rightarrow> x) None \<noteq> None
            then (Inl SlotConflict, st)
          else (Inr (newInterview (nextId st) u jid t (case dur of None \<Rightarrow> 10 | Some x \<Rightarrow> x)),
                st\<lparr>docs := docs st @
                        [newInterview (nextId st) u jid t (case dur of None \<Rightarrow> 10 | Some x \<Rightarrow> x)],
                   nextId := Suc (nextId st)\<rparr>))"
  by (auto simp: schedule_def Let_def split: option.splits)

lemma schedule_InrD:
  assumes "schedule st js now u body = (Inr d, st')"
  shows "\<exists>jid t j. req_jobId body = Some jid \<and> req_scheduledAt body = Some t \<and>
           js jid = Some j \<and> hasApplied j u \<and> now < t \<and>
           checkTimeConflict (docs st) t (case req_duration body of None \<Rightarrow> 10 | Some x \<Rightarrow> x) None
             = None \<and>
           d = newInterview (nextId st) u jid t
                 (case req_duration body of None \<Rightarrow> 10 | Some x \<Rightarrow> x) \<and>
           st' = st\<lparr>docs := docs st @ [d], nextId := Suc (nextId st)\<rparr>"
  using assms by (auto simp: schedule_def Let_def split: option.splits if_splits)

lemma complete_found:
  "findOne (docs st) i u = Some d \<Longrightarrow>
   complete st now i u ns =
     (if status d \<noteq> InProgress then (Inl InvalidTransition, st)
      else (Inr (d\<lparr>status := Completed, completedAt := Some now,
                   inotes := (if truthy ns then ns else inotes d)\<rparr>),
            st\<lparr>docs := save (d\<lparr>status := Completed, completedAt := Some now,
                                 inotes := (if truthy ns then ns else inotes d)\<rparr>) (docs st)\<rparr>))"
  by (simp add: complete_def Let_def)

lemma findByIdAndDelete_absent:
  "i \<notin> iid ` set ds \<Longrightarrow> findByIdAndDelete i ds = ds"
  by (induction ds) auto

lemma findByIdAndDelete_distinct:
  "distinct (map iid ds) \<Longrightarrow> findByIdAndDelete i ds = filter (\<lambda>x. iid x \<noteq> i) ds"
proof (induction ds)
  case Nil
  then show ?case by simp
next
  case (Cons x xs)
  show ?case
  proof (cases "iid x = i")
    case True
    with Cons.prems have "i \<notin> iid ` set xs" by auto
    then have "filter (\<lambda>y. iid y \<noteq> i) xs = xs" by (auto simp: filter_id_conv)
    with True show ?thesis by simp
  next
    case False
    with Cons show ?thesis by simp
  qed
qed

lemma findByIdAndDelete_length:
  "i \<in> iid ` set ds \<Longrightarrow> Suc (length (findByIdAndDelete i ds)) = length ds"
  by (induction ds) auto

lemma cancel_found:
  "findOne (docs st) i u = Some d \<Longrightarrow>
   cancel st i u =
     (if status d = Completed then (Inl CannotCancelCompleted, st)
      else (Inr (), st\<lparr>docs := findByIdAndDelete i (docs st)\<rparr>))"
  by (simp add: cancel_def)

lemma slotsOverlap_sym: "slotsOverlap a b = slotsOverlap b a"
  by (auto simp: slotsOverlap_def overlap_spec_def)

lemma exclusive_snoc:
  "exclusive (ds @ [n]) =
     (exclusive ds \<and> list_all (\<lambda>x. \<not> (active x \<and> active n \<and> slotsOverlap x n)) ds)"
  by (induction ds) auto

lemma exclusive_map_weaker:
  assumes "exclusive ds"
    and "\<forall>x\<in>set ds. scheduledAt (f x) = scheduledAt x \<and> duration (f x) = duration x \<and>
                     (active (f x) \<longrightarrow> active x)"
  shows "exclusive (map f ds)"
  using assms
proof (induction ds)
  case Nil
  then show ?case by simp
next
  case (Cons d ds)
  have same: "slotsOverlap (f d) (f x) = slotsOverlap d x" if "x \<in> set ds" for x
    using that Cons.prems(2) by (simp add: slotsOverlap_def endTime_def)
  have "list_all (\<lambda>x. \<not> (active (f d) \<and> active (f x) \<and> slotsOverlap (f d) (f x))) ds"
    unfolding list_all_iff
  proof
    fix x assume x: "x \<in> set ds"
    with Cons.prems(1) have "\<not> (active d \<and> active x \<and> slotsOverlap d x)"
      by (simp add: list_all_iff)
    with x Cons.prems(2) same[OF x]
    show "\<not> (active (f d) \<and> active (f x) \<and> slotsOverlap (f d) (f x))"
      by auto
  qed
  moreover have "exclusive (map f ds)"
    using Cons by simp
  ultimately show ?case by (simp add: list_all_iff)
qed

lemma set_findByIdAndDelete: "set (findByIdAndDelete i ds) \<subseteq> set ds"
  by (induction ds) auto

lemma exclusive_findByIdAndDelete: "exclusive ds \<Longrightarrow> exclusive (findByIdAndDelete i ds)"
proof (induction ds)
  case Nil
  then show ?case by simp
next
  case (Cons d ds)
  then show ?case
    using set_findByIdAndDelete[of i ds] by (auto simp: list_all_iff)
qed

lemma exclusive_imp_candidateExclusive: "exclusive ds \<Longrightarrow> candidateExclusive ds"
  by (induction ds) (auto simp: list_all_iff)

lemma map_iid_save: "map iid (save d' ds) = map iid ds"
  by (induction ds) auto

lemma set_save: "set (save d' ds) \<subseteq> insert d' (set ds)"
  by (induction ds) auto

lemma save_map:
  "distinct (map iid ds) \<Longrightarrow> save d' ds = map (\<lambda>x. if iid x = iid d' then d' else x) ds"
proof (induction ds)
  case Nil
  then show ?case by simp
next
  case (Cons x xs)
  show ?case
  proof (cases "iid x = iid d'")
    case True
    with Cons.prems have "iid d' \<notin> iid ` set xs" by simp
    then have "\<forall>y\<in>set xs. iid y \<noteq> iid d'" by (metis imageI)
    then have "map (\<lambda>x. if iid x = iid d' then d' else x) xs = xs"
      by (induction xs) auto
    with True show ?thesis by simp
  next
    case False
    with Cons show ?thesis by simp
  qed
qed

lemma distinct_iid_unique:
  "distinct (map iid ds) \<Longrightarrow> x \<in> set ds \<Longrightarrow> y \<in> set ds \<Longrightarrow> iid x = iid y \<Longrightarrow> x = y"
  by (auto simp: distinct_map dest: inj_onD)

lemma storeInv_save:
  assumes inv: "storeInv st" and f: "findOne (docs st) i u = Some d"
    and d': "iid d' = iid d" "scheduledAt d' = scheduledAt d" "duration d' = duration d"
            "active d' \<longrightarrow> active d"
  shows "storeInv (st\<lparr>docs := save d' (docs st)\<rparr>)"
proof -
  from inv have dist: "distinct (map iid (docs st))"
    and below: "list_all (\<lambda>d. iid d < nextId st) (docs st)"
    and excl: "exclusive (docs st)"
    by (simp_all add: storeInv_def)
  from f have dm: "d \<in> set (docs st)" by (auto dest: findOne_SomeD)
  let ?f = "\<lambda>x. if iid x = iid d' then d' else x"
  have sm: "save d' (docs st) = map ?f (docs st)"
    using dist by (rule save_map)
  have w: "\<forall>x\<in>set (docs st). scheduledAt (?f x) = scheduledAt x \<and>
             duration (?f x) = duration x \<and> (active (?f x) \<longrightarrow> active x)"
  proof
    fix x assume x: "x \<in> set (docs st)"
    show "scheduledAt (?f x) = scheduledAt x \<and> duration (?f x) = duration x \<and>
          (active (?f x) \<longrightarrow> active x)"
    proof (cases "iid x = iid d'")
      case True
      with d'(1) have "x = d" using distinct_iid_unique[OF dist x dm] by simp
      with True d' show ?thesis by simp
    next
      case False
      then show ?thesis by simp
    qed
  qed
  have e: "exclusive (save d' (docs st))"
    unfolding sm using excl w by (rule exclusive_map_weaker)
  have b: "list_all (\<lambda>x. iid x < nextId st) (save d' (docs st))"
  proof -
    from below dm have "iid d' < nextId st" using d'(1) by (simp add: list_all_iff)
    with below set_save[of d' "docs st"] show ?thesis by (auto simp: list_all_iff)
  qed
  from dist e b show ?thesis
    by (simp add: storeInv_def map_iid_save)
qed

lemma storeInv_start: "storeInv st \<Longrightarrow> storeInv (snd (start st now i u))"
proof (cases "findOne (docs st) i u")
  case None
  assume "storeInv st"
  with None show ?thesis by (simp add: start_def)
next
  case (Some d)
  assume inv: "storeInv st"
  have "storeInv (st\<lparr>docs := save (d\<lparr>status := InProgress, startedAt := Some now\<rparr>) (docs st)\<rparr>)"
    if "status d = Scheduled"
    using inv Some by (rule storeInv_save) (simp_all add: active_def that)
  with inv show ?thesis
    by (simp add: start_found[OF Some])
qed

lemma storeInv_complete: "storeInv st \<Longrightarrow> storeInv (snd (complete st now i u ns))"
proof (cases "findOne (docs st) i u")
  case None
  assume "storeInv st"
  with None show ?thesis by (simp add: complete_def)
next
  case (Some d)
  assume inv: "storeInv st"
  have "storeInv (st\<lparr>docs := save (d\<lparr>status := Completed, completedAt := Some now,
                   inotes := (if truthy ns then ns else inotes d)\<rparr>) (docs st)\<rparr>)"
    using inv Some by (rule storeInv_save) (simp_all add: active_def)
  with inv show ?thesis
    by (simp add: complete_found[OF Some])
qed

lemma storeInv_cancel: "storeInv st \<Longrightarrow> storeInv (snd (cancel st i u))"
proof (cases "findOne (docs st) i u")
  case None
  assume "storeInv st"
  with None show ?thesis by (simp add: cancel_def)
next
  case (Some d)
  assume inv: "storeInv st"
  then have dist: "distinct (map iid (docs st))"
    and below: "list_all (\<lambda>d. iid d < nextId st) (docs st)"
    and excl: "exclusive (docs st)"
    by (simp_all add: storeInv_def)
  have "storeInv (st\<lparr>docs := findByIdAndDelete i (docs st)\<rparr>)"
    unfolding storeInv_def
    using dist below exclusive_findByIdAndDelete[OF excl, of i]
    by (simp add: findByIdAndDelete_distinct distinct_map_filter list_all_iff)
  with inv show ?thesis
    by (simp add: cancel_found[OF Some])
qed

lemma storeInv_cleanup: "storeInv st \<Longrightarrow> storeInv (snd (cleanupExpiredInterviews st now))"
proof -
  assume inv: "storeInv st"
  let ?f = "\<lambda>d. if expiredQuery now d then d\<lparr>status := Expired\<rparr> else d"
  have ids: "map iid (map ?f xs) = map iid xs" for xs
    by (induction xs) auto
  have "exclusive (map ?f (docs st))"
    using inv by (intro exclusive_map_weaker) (auto simp: storeInv_def active_def)
  moreover have "list_all (\<lambda>d. iid d < nextId st) (map ?f (docs st))"
    using inv by (auto simp: storeInv_def list_all_iff)
  ultimately show ?thesis
    using inv ids[of "docs st"]
    by (simp add: storeInv_def cleanupExpiredInterviews_def del: map_map)
qed

lemma storeInv_schedule: "storeInv st \<Longrightarrow> storeInv (snd (schedule st js now u body))"
proof -
  assume inv: "storeInv st"
  show ?thesis
  proof (cases "fst (schedule st js now u body)")
    case (Inl e)
    then have "snd (schedule st js now u body) = st"
      by (auto simp: schedule_def Let_def split: option.splits if_splits)
    with inv show ?thesis by simp
  next
    case (Inr d)
    then have "schedule st js now u body = (Inr d, snd (schedule st js now u body))"
      by (simp add: prod_eq_iff)
    from schedule_InrD[OF this] obtain jid t where
      nc: "checkTimeConflict (docs st) t (case req_duration body of None \<Rightarrow> 10 | Some x \<Rightarrow> x) None
             = None"
      and d: "d = newInterview (nextId st) u jid t
                    (case req_duration body of None \<Rightarrow> 10 | Some x \<Rightarrow> x)"
      and st': "snd (schedule st js now u body) = st\<lparr>docs := docs st @ [d], nextId := Suc (nextId st)\<rparr>"
      by blast
    from inv have dist: "distinct (map iid (docs st))"
      and below: "list_all (\<lambda>d. iid d < nextId st) (docs st)"
      and excl: "exclusive (docs st)"
      by (simp_all add: storeInv_def)
    from d have dd: "iid d = nextId st" "scheduledAt d = t"
      "endTime d = t + (case req_duration body of None \<Rightarrow> 10 | Some x \<Rightarrow> x) * 60 * 1000"
      by (simp_all add: newInterview_def endTime_def)
    have free: "\<not> (active x \<and> active d \<and> slotsOverlap x d)" if x: "x \<in> set (docs st)" for x
    proof
      assume a: "active x \<and> active d \<and> slotsOverlap x d"
      then have "overlap_spec t (endTime d) (scheduledAt x) (endTime x)"
        using dd(2) by (auto simp: slotsOverlap_def overlap_spec_def)
      with a have "conflictQuery t (endTime d) None x"
        by (intro overlap_imp_conflictQuery) simp_all
      moreover from nc x have "\<not> conflictQuery t (endTime d) None x"
        unfolding checkTimeConflict_def Let_def find_None_conv dd(3) by blast
      ultimately show False by simp
    qed
    have fresh: "nextId st \<notin> iid ` set (docs st)"
      using below by (auto simp: list_all_iff)
    have "distinct (map iid (docs st @ [d]))"
      using dist fresh dd(1) by simp
    moreover have "list_all (\<lambda>x. iid x < Suc (nextId st)) (docs st @ [d])"
      using below dd(1) by (auto simp: list_all_iff)
    moreover have "exclusive (docs st @ [d])"
      using excl free by (simp add: exclusive_snoc list_all_iff)
    ultimately show ?thesis
      unfolding st' by (simp add: storeInv_def)
  qed
qed

lemma reachable_storeInv: "reachable st \<Longrightarrow> storeInv st"
proof (induction rule: reachable.induct)
  case r_init
  show ?case by (simp add: storeInv_def emptyStore_def)
next
  case (r_schedule st js now userId body)
  then show ?case by (intro storeInv_schedule)
next
  case (r_cancel st interviewId userId)
  then show ?case by (intro storeInv_cancel)
next
  case (r_start st now interviewId userId)
  then show ?case by (intro storeInv_start)
next
  case (r_complete st now interviewId userId ns)
  then show ?case by (intro storeInv_complete)
next
  case (r_cleanup st now)
  then show ?case by (intro storeInv_cleanup)
qed

lemma exclusive_nth:
  "exclusive ds \<Longrightarrow> i < j \<Longrightarrow> j < length ds \<Longrightarrow>
   \<not> (active (ds ! i) \<and> active (ds ! j) \<and> slotsOverlap (ds ! i) (ds ! j))"
proof (induction ds arbitrary: i j)
  case Nil
  then show ?case by simp
next
  case (Cons d ds)
  from Cons.prems(2) obtain j' where j: "j = Suc j'" by (cases j) auto
  with Cons.prems(3) have j': "j' < length ds" by simp
  show ?case
  proof (cases i)
    case 0
    from j' have "ds ! j' \<in> set ds" by simp
    with Cons.prems(1) have "\<not> (active d \<and> active (ds ! j') \<and> slotsOverlap d (ds ! j'))"
      by (simp add: list_all_iff)
    with 0 j show ?thesis by simp
  next
    case (Suc i')
    with Cons.prems(2) j have "i' < j'" by simp
    with Cons.IH[of i' j'] Cons.prems(1) j' have
      "\<not> (active (ds ! i') \<and> active (ds ! j') \<and> slotsOverlap (ds ! i') (ds ! j'))"
      by simp
    with Suc j show ?thesis by simp
  qed
qed

lemma common_instant_overlap:
  "scheduledAt a \<le> t \<Longrightarrow> t < endTime a \<Longrightarrow> scheduledAt b \<le> t \<Longrightarrow> t < endTime b \<Longrightarrow>
   slotsOverlap a b"
  by (simp add: slotsOverlap_def overlap_spec_def)

lemma exclusive_no_common_instant:
  assumes "exclusive ds" "i < j" "j < length ds" "active (ds ! i)" "active (ds ! j)"
    "scheduledAt (ds ! i) \<le> t" "t < endTime (ds ! i)"
  shows "\<not> (scheduledAt (ds ! j) \<le> t \<and> t < endTime (ds ! j))"
  using exclusive_nth[OF assms(1-3)] assms(4-7) common_instant_overlap[of "ds ! i" t "ds ! j"]
  by blast

section \<open>The conflict query and the half-open overlap test\<close>

text \<open>
  Claim C2, as the code has it. When the requested duration and the durations of the
  stored interviews are positive, the query of \<open>checkTimeConflict\<close> matches a stored
  interview exactly when that interview is active and the half-open test
  \<open>s1 < e2 \<and> s2 < e1\<close> holds; \<open>checkTimeConflict\<close> returns a document exactly when some
  stored interview passes that test; and an interview whose slot merely abuts the
  requested one is not matched.
\<close>

theorem checkTimeConflict_half_open:
  assumes dur: "0 < dur" and pos: "\<forall>d\<in>set ds. 0 < duration d"
  shows "(\<forall>d\<in>set ds.
            conflictQuery s (s + dur * 60 * 1000) None d =
              (active d \<and> overlap_spec s (s + dur * 60 * 1000) (scheduledAt d) (endTime d))) \<and>
         ((checkTimeConflict ds s dur None \<noteq> None) =
            (\<exists>d\<in>set ds. active d \<and>
               overlap_spec s (s + dur * 60 * 1000) (scheduledAt d) (endTime d))) \<and>
         (\<forall>d\<in>set ds. endTime d = s \<or> s + dur * 60 * 1000 = scheduledAt d \<longrightarrow>
            \<not> conflictQuery s (s + dur * 60 * 1000) None d)"
proof -
  let ?e = "s + dur * 60 * 1000"
  from dur have se: "s < ?e" by simp
  have q: "conflictQuery s ?e None d =
             (active d \<and> overlap_spec s ?e (scheduledAt d) (endTime d))"
    if "d \<in> set ds" for d
    using that pos se by (intro conflictQuery_positive) auto
  have c: "(checkTimeConflict ds s dur None \<noteq> None) =
             (\<exists>d\<in>set ds. active d \<and> overlap_spec s ?e (scheduledAt d) (endTime d))"
    unfolding checkTimeConflict_def Let_def find_None_conv using q by auto
  have a: "\<not> conflictQuery s ?e None d"
    if "d \<in> set ds" and "endTime d = s \<or> ?e = scheduledAt d" for d
    using that q[of d] by (auto simp: overlap_spec_def)
  from q c a show ?thesis by blast
qed

text \<open>
  A stored slot \<open>[600000, 1200000)\<close>: a request for \<open>[1200000, 1800000)\<close> abuts it and
  finds no conflict, a request for \<open>[900000, 1500000)\<close> overlaps it and finds one.
\<close>

theorem checkTimeConflict_half_open_witness:
  "checkTimeConflict [newInterview 0 1 7 600000 10] 1200000 10 None = None \<and>
   checkTimeConflict [newInterview 0 1 7 600000 10] 900000 10 None \<noteq> None"
  using checkTimeConflict_half_open [of 10 "[newInterview 0 1 7 600000 10]" 1200000]
        checkTimeConflict_half_open [of 10 "[newInterview 0 1 7 600000 10]" 900000]
  by (simp add: newInterview_def active_def overlap_spec_def endTime_def)

text \<open>
  Claim C2 as stated fails for a duration that is not positive, which the route accepts.
  A request of duration 0 at 600000 is the empty interval \<open>[600000, 600000)\<close>; it abuts
  the stored slot \<open>[600000, 1200000)\<close> and the half-open test is false, yet the first
  clause of the query matches the stored interview.
\<close>

theorem checkTimeConflict_zero_duration_counterexample:
  "checkTimeConflict [newInterview 0 1 7 600000 10] 600000 0 None
     = Some (newInterview 0 1 7 600000 10) \<and>
   600000 + 0 * 60 * 1000 = scheduledAt (newInterview 0 1 7 600000 10) \<and>
   \<not> overlap_spec 600000 (600000 + 0 * 60 * 1000)
        (scheduledAt (newInterview 0 1 7 600000 10)) (endTime (newInterview 0 1 7 600000 10))"
  by (simp add: checkTimeConflict_def conflictQuery_def newInterview_def overlap_spec_def
      endTime_def)

section \<open>Starting an interview\<close>




text \<open>
  Claim C10, as the code has it. For an interview of the caller in any status, a start
  attempt before \<open>scheduledAt\<close> returns \<open>TooEarly\<close>; one at or after \<open>endTime\<close> that is
  not before \<open>scheduledAt\<close> returns \<open>WindowExpired\<close>; and \<open>InvalidTransition\<close> is returned
  exactly when \<open>now\<close> lies in \<open>[scheduledAt, endTime)\<close> and the status is not
  \<^verbatim>\<open>scheduled\<close>.
\<close>

theorem start_time_checks_first:
  assumes f: "findOne (docs st) i u = Some d"
  shows "(now < scheduledAt d \<longrightarrow>
            start st now i u = (Inl (TooEarly (scheduledAt d - now)), st)) \<and>
         (scheduledAt d \<le> now \<and> endTime d \<le> now \<longrightarrow>
            start st now i u = (Inl WindowExpired, st)) \<and>
         ((fst (start st now i u) = Inl InvalidTransition) =
            (scheduledAt d \<le> now \<and> now < endTime d \<and> status d \<noteq> Scheduled))"
  by (auto simp: start_found[OF f])

text \<open>A completed interview booked for \<open>[600000, 1200000)\<close>: before, after and inside its window.\<close>

theorem start_time_checks_first_witness:
  "start \<lparr>docs = [(newInterview 0 1 7 600000 10)\<lparr>status := Completed\<rparr>], nextId = 1\<rparr> 599999 0 1 =
     (Inl (TooEarly 1),
      \<lparr>docs = [(newInterview 0 1 7 600000 10)\<lparr>status := Completed\<rparr>], nextId = 1\<rparr>) \<and>
   start \<lparr>docs = [(newInterview 0 1 7 600000 10)\<lparr>status := Completed\<rparr>], nextId = 1\<rparr> 1200000 0 1 =
     (Inl WindowExpired,
      \<lparr>docs = [(newInterview 0 1 7 600000 10)\<lparr>status := Completed\<rparr>], nextId = 1\<rparr>) \<and>
   fst (start \<lparr>docs = [(newInterview 0 1 7 600000 10)\<lparr>status := Completed\<rparr>], nextId = 1\<rparr>
          600000 0 1) = Inl InvalidTransition"
  using start_time_checks_first
          [of "\<lparr>docs = [(newInterview 0 1 7 600000 10)\<lparr>status := Completed\<rparr>], nextId = 1\<rparr>" 0 1
            "(newInterview 0 1 7 600000 10)\<lparr>status := Completed\<rparr>" 599999]
        start_time_checks_first
          [of "\<lparr>docs = [(newInterview 0 1 7 600000 10)\<lparr>status := Completed\<rparr>], nextId = 1\<rparr>" 0 1
            "(newInterview 0 1 7 600000 10)\<lparr>status := Completed\<rparr>" 1200000]
        start_time_checks_first
          [of "\<lparr>docs = [(newInterview 0 1 7 600000 10)\<lparr>status := Completed\<rparr>], nextId = 1\<rparr>" 0 1
            "(newInterview 0 1 7 600000 10)\<lparr>status := Completed\<rparr>" 600000]
  by (simp add: findOne_def newInterview_def endTime_def)

text \<open>
  Claim C10 as stated gives \<open>WindowExpired\<close> at or after \<open>endTime\<close> in any status. An
  interview booked with duration \<open>-1\<close> ends at 540000, before its start 600000; the
  sweep at 550000 marks it expired, and a start attempt at 560000 is answered
  \<open>TooEarly\<close>, not \<open>WindowExpired\<close>.
\<close>

theorem start_expired_negative_duration_counterexample:
  "schedule emptyStore sampleJobs 0 1
     \<lparr>req_jobId = Some 7, req_scheduledAt = Some 600000, req_duration = Some (- 1)\<rparr> =
     (Inr (newInterview 0 1 7 600000 (- 1)),
      \<lparr>docs = [newInterview 0 1 7 600000 (- 1)], nextId = 1\<rparr>) \<and>
   cleanupExpiredInterviews \<lparr>docs = [newInterview 0 1 7 600000 (- 1)], nextId = 1\<rparr> 550000 =
     (1, \<lparr>docs = [(newInterview 0 1 7 600000 (- 1))\<lparr>status := Expired\<rparr>], nextId = 1\<rparr>) \<and>
   endTime ((newInterview 0 1 7 600000 (- 1))\<lparr>status := Expired\<rparr>) \<le> 560000 \<and>
   start \<lparr>docs = [(newInterview 0 1 7 600000 (- 1))\<lparr>status := Expired\<rparr>], nextId = 1\<rparr> 560000 0 1 =
     (Inl (TooEarly 40000),
      \<lparr>docs = [(newInterview 0 1 7 600000 (- 1))\<lparr>status := Expired\<rparr>], nextId = 1\<rparr>) \<and>
   fst (start \<lparr>docs = [(newInterview 0 1 7 600000 (- 1))\<lparr>status := Expired\<rparr>], nextId = 1\<rparr>
          560000 0 1) \<noteq> Inl WindowExpired"
  by (simp add: schedule_def Let_def emptyStore_def sampleJobs_def hasApplied_def checkTimeConflict_def
      cleanupExpiredInterviews_def expiredQuery_def start_def findOne_def newInterview_def
      endTime_def)


section \<open>The expiry sweep\<close>

text \<open>
  Claim C4, as the code has it. \<open>cleanupExpiredInterviews\<close> at the clock reading \<open>now\<close>
  rewrites exactly the interviews whose status is \<^verbatim>\<open>scheduled\<close> and whose \<open>endTime\<close> is
  earlier than \<open>now\<close>, and only their status, to \<^verbatim>\<open>expired\<close>; every other interview,
  the order of the collection and the id generator are as before; the count it returns
  is the number of documents that changed; and a second sweep at the same instant
  changes nothing and returns 0. The guard is the strict \<open>endTime < now\<close>.
\<close>

theorem cleanupExpiredInterviews_exact:
  "length (docs (snd (cleanupExpiredInterviews st now))) = length (docs st) \<and>
   nextId (snd (cleanupExpiredInterviews st now)) = nextId st \<and>
   (\<forall>k<length (docs st).
      docs (snd (cleanupExpiredInterviews st now)) ! k =
        (if status (docs st ! k) = Scheduled \<and> endTime (docs st ! k) < now
         then (docs st ! k)\<lparr>status := Expired\<rparr> else docs st ! k)) \<and>
   fst (cleanupExpiredInterviews st now) =
     card {k. k < length (docs st) \<and>
              docs (snd (cleanupExpiredInterviews st now)) ! k \<noteq> docs st ! k} \<and>
   cleanupExpiredInterviews (snd (cleanupExpiredInterviews st now)) now =
     (0, snd (cleanupExpiredInterviews st now))"
proof -
  let ?st' = "snd (cleanupExpiredInterviews st now)"
  have len: "length (docs ?st') = length (docs st)"
    by (simp add: cleanup_docs)
  have nid: "nextId ?st' = nextId st"
    by (simp add: cleanupExpiredInterviews_def)
  have nth: "docs ?st' ! k =
        (if status (docs st ! k) = Scheduled \<and> endTime (docs st ! k) < now
         then (docs st ! k)\<lparr>status := Expired\<rparr> else docs st ! k)"
    if "k < length (docs st)" for k
    using that by (simp add: cleanup_docs expiredQuery_endTime)
  have "{k. k < length (docs st) \<and> docs ?st' ! k \<noteq> docs st ! k} =
        {k. k < length (docs st) \<and> expiredQuery now (docs st ! k)}"
    by (simp add: cleanup_docs sweep_changed_conv cong: conj_cong)
  then have cnt: "fst (cleanupExpiredInterviews st now) =
      card {k. k < length (docs st) \<and> docs ?st' ! k \<noteq> docs st ! k}"
    by (simp add: cleanup_count length_filter_conv_card)
  from len nid nth cnt cleanup_twice show ?thesis by blast
qed

text \<open>
  Two bookings, \<open>[600000, 1200000)\<close> and \<open>[1200000, 1800000)\<close>, swept at 1500000: the
  first expires, the second stays; the second sweep finds nothing.
\<close>

theorem cleanupExpiredInterviews_exact_witness:
  "cleanupExpiredInterviews
     \<lparr>docs = [newInterview 0 1 7 600000 10, newInterview 1 2 7 1200000 10], nextId = 2\<rparr> 1500000 =
     (1, \<lparr>docs = [(newInterview 0 1 7 600000 10)\<lparr>status := Expired\<rparr>,
                  newInterview 1 2 7 1200000 10], nextId = 2\<rparr>) \<and>
   cleanupExpiredInterviews
     \<lparr>docs = [(newInterview 0 1 7 600000 10)\<lparr>status := Expired\<rparr>,
              newInterview 1 2 7 1200000 10], nextId = 2\<rparr> 1500000 =
     (0, \<lparr>docs = [(newInterview 0 1 7 600000 10)\<lparr>status := Expired\<rparr>,
                  newInterview 1 2 7 1200000 10], nextId = 2\<rparr>)"
proof -
  let ?st = "\<lparr>docs = [newInterview 0 1 7 600000 10, newInterview 1 2 7 1200000 10], nextId = 2\<rparr>"
  let ?st' = "\<lparr>docs = [(newInterview 0 1 7 600000 10)\<lparr>status := Expired\<rparr>,
                  newInterview 1 2 7 1200000 10], nextId = 2\<rparr>"
  have run: "cleanupExpiredInterviews ?st 1500000 = (1, ?st')"
    by (simp add: cleanupExpiredInterviews_def expiredQuery_def newInterview_def)
  note t = cleanupExpiredInterviews_exact [of ?st 1500000]
  have twice: "cleanupExpiredInterviews (snd (cleanupExpiredInterviews ?st 1500000)) 1500000 =
          (0, snd (cleanupExpiredInterviews ?st 1500000))"
    by (rule t[THEN conjunct2, THEN conjunct2, THEN conjunct2, THEN conjunct2])
  have first: "docs (snd (cleanupExpiredInterviews ?st 1500000)) ! 0 =
          (if status (docs ?st ! 0) = Scheduled \<and> endTime (docs ?st ! 0) < 1500000
           then (docs ?st ! 0)\<lparr>status := Expired\<rparr> else docs ?st ! 0)"
    by (rule t[THEN conjunct2, THEN conjunct2, THEN conjunct1, rule_format]) simp
  from run twice first show ?thesis by simp
qed

text \<open>
  Claim C4 also gives the guard of the expire transition as \<open>now \<ge> endTime\<close>. At
  \<open>now = endTime\<close> that guard holds for a scheduled interview, and the sweep leaves it
  scheduled.
\<close>

theorem cleanupExpiredInterviews_boundary_counterexample:
  "status (newInterview 0 1 7 600000 10) = Scheduled \<and>
   1200000 \<ge> endTime (newInterview 0 1 7 600000 10) \<and>
   cleanupExpiredInterviews \<lparr>docs = [newInterview 0 1 7 600000 10], nextId = 1\<rparr> 1200000 =
     (0, \<lparr>docs = [newInterview 0 1 7 600000 10], nextId = 1\<rparr>)"
  by (simp add: cleanupExpiredInterviews_def expiredQuery_def newInterview_def endTime_def)

section \<open>Scheduling an interview\<close>

text \<open>
  Claim C5. For a request that carries a job id and an instant, \<open>schedule\<close> answers
  \<open>JobNotFound\<close> when the job does not exist, whatever the other guards would say;
  \<open>NotApplied\<close> when the job exists and the caller has no application on it, whatever the
  time and the conflict check would say; \<open>InvalidTime\<close> when these two pass and the instant
  is not after \<open>now\<close> (equal to \<open>now\<close> included), whatever the conflict check would say;
  \<open>SlotConflict\<close> when these three pass and \<open>checkTimeConflict\<close> finds a document; and it
  creates an interview in status \<^verbatim>\<open>scheduled\<close> when all four pass, and only then. Every
  failure leaves the store as it was.
\<close>

theorem schedule_guard_order:
  "(js jid = None \<longrightarrow>
      schedule st js now u \<lparr>req_jobId = Some jid, req_scheduledAt = Some t, req_duration = dur\<rparr>
        = (Inl JobNotFound, st)) \<and>
   (\<forall>j. js jid = Some j \<and> \<not> hasApplied j u \<longrightarrow>
      schedule st js now u \<lparr>req_jobId = Some jid, req_scheduledAt = Some t, req_duration = dur\<rparr>
        = (Inl NotApplied, st)) \<and>
   (\<forall>j. js jid = Some j \<and> hasApplied j u \<and> t \<le> now \<longrightarrow>
      schedule st js now u \<lparr>req_jobId = Some jid, req_scheduledAt = Some t, req_duration = dur\<rparr>
        = (Inl InvalidTime, st)) \<and>
   (\<forall>j. js jid = Some j \<and> hasApplied j u \<and> now < t \<and>
        checkTimeConflict (docs st) t (case dur of None \<Rightarrow> 10 | Some x \<Rightarrow> x) None \<noteq> None \<longrightarrow>
      schedule st js now u \<lparr>req_jobId = Some jid, req_scheduledAt = Some t, req_duration = dur\<rparr>
        = (Inl SlotConflict, st)) \<and>
   (\<forall>j. js jid = Some j \<and> hasApplied j u \<and> now < t \<and>
        checkTimeConflict (docs st) t (case dur of None \<Rightarrow> 10 | Some x \<Rightarrow> x) None = None \<longrightarrow>
      (\<exists>d. schedule st js now u
              \<lparr>req_jobId = Some jid, req_scheduledAt = Some t, req_duration = dur\<rparr>
            = (Inr d, st\<lparr>docs := docs st @ [d], nextId := Suc (nextId st)\<rparr>) \<and>
           status d = Scheduled \<and> user d = u \<and> job d = jid \<and> scheduledAt d = t)) \<and>
   (\<forall>d st'. schedule st js now u
               \<lparr>req_jobId = Some jid, req_scheduledAt = Some t, req_duration = dur\<rparr> = (Inr d, st') \<longrightarrow>
      (\<exists>j. js jid = Some j \<and> hasApplied j u) \<and> now < t \<and>
      checkTimeConflict (docs st) t (case dur of None \<Rightarrow> 10 | Some x \<Rightarrow> x) None = None \<and>
      status d = Scheduled)"
proof -
  let ?body = "\<lparr>req_jobId = Some jid, req_scheduledAt = Some t, req_duration = dur\<rparr>"
  let ?dur = "case dur of None \<Rightarrow> 10 | Some x \<Rightarrow> x"
  have g1: "js jid = None \<longrightarrow> schedule st js now u ?body = (Inl JobNotFound, st)"
    by (simp add: schedule_present)
  have g2: "\<forall>j. js jid = Some j \<and> \<not> hasApplied j u \<longrightarrow>
              schedule st js now u ?body = (Inl NotApplied, st)"
    by (simp add: schedule_present)
  have g3: "\<forall>j. js jid = Some j \<and> hasApplied j u \<and> t \<le> now \<longrightarrow>
              schedule st js now u ?body = (Inl InvalidTime, st)"
    by (simp add: schedule_present)
  have g4: "\<forall>j. js jid = Some j \<and> hasApplied j u \<and> now < t \<and>
                checkTimeConflict (docs st) t ?dur None \<noteq> None \<longrightarrow>
              schedule st js now u ?body = (Inl SlotConflict, st)"
    by (auto simp: schedule_present)
  have g5: "\<forall>j. js jid = Some j \<and> hasApplied j u \<and> now < t \<and>
                checkTimeConflict (docs st) t ?dur None = None \<longrightarrow>
              (\<exists>d. schedule st js now u ?body
                    = (Inr d, st\<lparr>docs := docs st @ [d], nextId := Suc (nextId st)\<rparr>) \<and>
                   status d = Scheduled \<and> user d = u \<and> job d = jid \<and> scheduledAt d = t)"
    by (auto simp: schedule_present newInterview_def)
  have g6: "\<forall>d st'. schedule st js now u ?body = (Inr d, st') \<longrightarrow>
              (\<exists>j. js jid = Some j \<and> hasApplied j u) \<and> now < t \<and>
              checkTimeConflict (docs st) t ?dur None = None \<and> status d = Scheduled"
    by (auto dest!: schedule_InrD simp: newInterview_def)
  show ?thesis
    by (intro conjI g1 g2 g3 g4 g5 g6)
qed

text \<open>
  One booking \<open>[600000, 1200000)\<close> in the store and the clock at 100. A request for the
  missing job 8 is \<open>JobNotFound\<close> though its instant is past; candidate 3, who has not
  applied to job 7, gets \<open>NotApplied\<close> though the instant is past; candidate 2 at the
  instant 100 itself gets \<open>InvalidTime\<close> though the slot would also conflict; at 900000
  gets \<open>SlotConflict\<close>; and at 1200000 gets the new interview.
\<close>

theorem schedule_guard_order_witness:
  "schedule \<lparr>docs = [newInterview 0 1 7 600000 10], nextId = 1\<rparr> sampleJobs 100 3
     \<lparr>req_jobId = Some 8, req_scheduledAt = Some 50, req_duration = None\<rparr> =
     (Inl JobNotFound, \<lparr>docs = [newInterview 0 1 7 600000 10], nextId = 1\<rparr>) \<and>
   schedule \<lparr>docs = [newInterview 0 1 7 600000 10], nextId = 1\<rparr> sampleJobs 100 3
     \<lparr>req_jobId = Some 7, req_scheduledAt = Some 50, req_duration = None\<rparr> =
     (Inl NotApplied, \<lparr>docs = [newInterview 0 1 7 600000 10], nextId = 1\<rparr>) \<and>
   schedule \<lparr>docs = [newInterview 0 1 7 600000 10], nextId = 1\<rparr> sampleJobs 100 2
     \<lparr>req_jobId = Some 7, req_scheduledAt = Some 100, req_duration = Some 10000\<rparr> =
     (Inl InvalidTime, \<lparr>docs = [newInterview 0 1 7 600000 10], nextId = 1\<rparr>) \<and>
   schedule \<lparr>docs = [newInterview 0 1 7 600000 10], nextId = 1\<rparr> sampleJobs 100 2
     \<lparr>req_jobId = Some 7, req_scheduledAt = Some 900000, req_duration = None\<rparr> =
     (Inl SlotConflict, \<lparr>docs = [newInterview 0 1 7 600000 10], nextId = 1\<rparr>) \<and>
   (\<exists>d. schedule \<lparr>docs = [newInterview 0 1 7 600000 10], nextId = 1\<rparr> sampleJobs 100 2
          \<lparr>req_jobId = Some 7, req_scheduledAt = Some 1200000, req_duration = None\<rparr> =
          (Inr d, \<lparr>docs = [newInterview 0 1 7 600000 10, d], nextId = 2\<rparr>) \<and>
        status d = Scheduled)"
proof -
  let ?st = "\<lparr>docs = [newInterview 0 1 7 600000 10], nextId = 1\<rparr>"
  have j7: "sampleJobs 7 = Some \<lparr>applications = [\<lparr>app_user = 1\<rparr>, \<lparr>app_user = 2\<rparr>]\<rparr>"
    and j8: "sampleJobs 8 = None"
    by (simp_all add: sampleJobs_def)
  have a2: "hasApplied \<lparr>applications = [\<lparr>app_user = 1\<rparr>, \<lparr>app_user = 2\<rparr>]\<rparr> 2"
    and a3: "\<not> hasApplied \<lparr>applications = [\<lparr>app_user = 1\<rparr>, \<lparr>app_user = 2\<rparr>]\<rparr> 3"
    by (simp_all add: hasApplied_def)
  have c1: "checkTimeConflict (docs ?st) 900000 (case None of None \<Rightarrow> 10 | Some x \<Rightarrow> x) None \<noteq> None"
    and c2: "checkTimeConflict (docs ?st) 1200000 (case None of None \<Rightarrow> 10 | Some x \<Rightarrow> x) None = None"
    by (simp_all add: checkTimeConflict_def conflictQuery_def newInterview_def)
  have t: "(100::int) \<le> 100" and t1: "(100::int) < 900000" and t2: "(100::int) < 1200000"
    by simp_all
  have r1: "schedule ?st sampleJobs 100 3
              \<lparr>req_jobId = Some 8, req_scheduledAt = Some 50, req_duration = None\<rparr> =
            (Inl JobNotFound, ?st)"
    by (rule schedule_guard_order [THEN conjunct1, rule_format]) (rule j8)
  have r2: "schedule ?st sampleJobs 100 3
              \<lparr>req_jobId = Some 7, req_scheduledAt = Some 50, req_duration = None\<rparr> =
            (Inl NotApplied, ?st)"
    by (rule schedule_guard_order [THEN conjunct2, THEN conjunct1, rule_format])
       (rule conjI, rule j7, rule a3)
  have r3: "schedule ?st sampleJobs 100 2
              \<lparr>req_jobId = Some 7, req_scheduledAt = Some 100, req_duration = Some 10000\<rparr> =
            (Inl InvalidTime, ?st)"
    by (rule schedule_guard_order [THEN conjunct2, THEN conjunct2, THEN conjunct1, rule_format])
       (rule conjI, rule j7, rule conjI, rule a2, rule t)
  have r4: "schedule ?st sampleJobs 100 2
              \<lparr>req_jobId = Some 7, req_scheduledAt = Some 900000, req_duration = None\<rparr> =
            (Inl SlotConflict, ?st)"
    by (rule schedule_guard_order
          [THEN conjunct2, THEN conjunct2, THEN conjunct2, THEN conjunct1, rule_format])
       (rule conjI, rule j7, rule conjI, rule a2, rule conjI, rule t1, rule c1)
  have r5: "\<exists>d. schedule ?st sampleJobs 100 2
              \<lparr>req_jobId = Some 7, req_scheduledAt = Some 1200000, req_duration = None\<rparr> =
              (Inr d, ?st\<lparr>docs := docs ?st @ [d], nextId := Suc (nextId ?st)\<rparr>) \<and>
            status d = Scheduled \<and> user d = 2 \<and> job d = 7 \<and> scheduledAt d = 1200000"
    by (rule schedule_guard_order
          [THEN conjunct2, THEN conjunct2, THEN conjunct2, THEN conjunct2, THEN conjunct1,
           rule_format])
       (rule conjI, rule j7, rule conjI, rule a2, rule conjI, rule t2, rule c2)
  then have r5': "\<exists>d. schedule ?st sampleJobs 100 2
              \<lparr>req_jobId = Some 7, req_scheduledAt = Some 1200000, req_duration = None\<rparr> =
              (Inr d, \<lparr>docs = [newInterview 0 1 7 600000 10, d], nextId = 2\<rparr>) \<and>
            status d = Scheduled"
    by auto
  from r1 r2 r3 r4 r5' show ?thesis
    by (intro conjI)
qed

section \<open>Completing an interview\<close>



section \<open>Cancelling an interview\<close>

text \<open>
  Claim C7. The ids of a collection are distinct (the \<^verbatim>\<open>_id\<close> index). For an interview of
  the caller, \<open>cancel\<close> fails and changes nothing when the status is \<^verbatim>\<open>completed\<close>; in
  every other status it succeeds and the document is gone from the collection: the
  collection is the former one without that document, one shorter, with no document of
  that id left, and no other document is touched (none is rewritten to \<^verbatim>\<open>cancelled\<close>).
\<close>

theorem cancel_deletes:
  assumes f: "findOne (docs st) i u = Some d" and dist: "distinct (map iid (docs st))"
  shows "(status d = Completed \<longrightarrow> cancel st i u = (Inl CannotCancelCompleted, st)) \<and>
         (status d \<noteq> Completed \<longrightarrow>
            cancel st i u = (Inr (), st\<lparr>docs := filter (\<lambda>x. iid x \<noteq> i) (docs st)\<rparr>) \<and>
            set (docs (snd (cancel st i u))) = set (docs st) - {d} \<and>
            Suc (length (docs (snd (cancel st i u)))) = length (docs st) \<and>
            (\<forall>x\<in>set (docs (snd (cancel st i u))). iid x \<noteq> i) \<and>
            findOne (docs (snd (cancel st i u))) i u = None)"
proof -
  from f have d: "d \<in> set (docs st)" "iid d = i" by (auto dest: findOne_SomeD)
  then have mem: "i \<in> iid ` set (docs st)" by auto
  have del: "findByIdAndDelete i (docs st) = filter (\<lambda>x. iid x \<noteq> i) (docs st)"
    using dist by (rule findByIdAndDelete_distinct)
  have uniq: "x = d" if x: "x \<in> set (docs st)" "iid x = i" for x
  proof -
    from dist have "inj_on iid (set (docs st))" by (simp add: distinct_map)
    with x d show ?thesis by (auto dest: inj_onD)
  qed
  have s: "set (filter (\<lambda>x. iid x \<noteq> i) (docs st)) = set (docs st) - {d}"
    unfolding set_filter using uniq d by blast
  have l: "Suc (length (filter (\<lambda>x. iid x \<noteq> i) (docs st))) = length (docs st)"
    using findByIdAndDelete_length[OF mem] del by simp
  have a: "\<forall>x\<in>set (filter (\<lambda>x. iid x \<noteq> i) (docs st)). iid x \<noteq> i"
    by simp
  have n: "findOne (filter (\<lambda>x. iid x \<noteq> i) (docs st)) i u = None"
    by (simp add: findOne_None_conv)
  show ?thesis
  proof (cases "status d = Completed")
    case True
    then have r: "cancel st i u = (Inl CannotCancelCompleted, st)"
      by (simp add: cancel_found[OF f])
    from True r show ?thesis by simp
  next
    case False
    then have r: "cancel st i u = (Inr (), st\<lparr>docs := filter (\<lambda>x. iid x \<noteq> i) (docs st)\<rparr>)"
      by (simp add: cancel_found[OF f] del)
    have sn: "docs (snd (cancel st i u)) = filter (\<lambda>x. iid x \<noteq> i) (docs st)"
      unfolding r by simp
    from False have c1: "status d = Completed \<longrightarrow> cancel st i u = (Inl CannotCancelCompleted, st)"
      by simp
    from r s l a n show ?thesis
      unfolding sn by (intro conjI impI c1)
  qed
qed

text \<open>
  Two bookings; candidate 1 cancels the first, which is scheduled, and the second
  alone remains. A completed interview is not cancelled.
\<close>

theorem cancel_deletes_witness:
  "cancel \<lparr>docs = [newInterview 0 1 7 600000 10, newInterview 1 2 7 1200000 10], nextId = 2\<rparr> 0 1 =
     (Inr (), \<lparr>docs = [newInterview 1 2 7 1200000 10], nextId = 2\<rparr>) \<and>
   cancel \<lparr>docs = [(newInterview 0 1 7 600000 10)\<lparr>status := Completed\<rparr>], nextId = 1\<rparr> 0 1 =
     (Inl CannotCancelCompleted,
      \<lparr>docs = [(newInterview 0 1 7 600000 10)\<lparr>status := Completed\<rparr>], nextId = 1\<rparr>)"
proof -
  let ?st = "\<lparr>docs = [newInterview 0 1 7 600000 10, newInterview 1 2 7 1200000 10], nextId = 2\<rparr>"
  let ?c = "(newInterview 0 1 7 600000 10)\<lparr>status := Completed\<rparr>"
  let ?st2 = "\<lparr>docs = [?c], nextId = 1\<rparr>"
  have f1: "findOne (docs ?st) 0 1 = Some (newInterview 0 1 7 600000 10)"
    and d1: "distinct (map iid (docs ?st))"
    and s1: "status (newInterview 0 1 7 600000 10) \<noteq> Completed"
    by (simp_all add: findOne_def newInterview_def)
  have f2: "findOne (docs ?st2) 0 1 = Some ?c"
    and d2: "distinct (map iid (docs ?st2))"
    and s2: "status ?c = Completed"
    by (simp_all add: findOne_def newInterview_def)
  have r1: "cancel ?st 0 1 = (Inr (), ?st\<lparr>docs := filter (\<lambda>x. iid x \<noteq> 0) (docs ?st)\<rparr>)"
    by (rule cancel_deletes [OF f1 d1, THEN conjunct2, rule_format, OF s1, THEN conjunct1])
  have r2: "cancel ?st2 0 1 = (Inl CannotCancelCompleted, ?st2)"
    by (rule cancel_deletes [OF f2 d2, THEN conjunct1, rule_format, OF s2])
  have r1': "cancel ?st 0 1 = (Inr (), \<lparr>docs = [newInterview 1 2 7 1200000 10], nextId = 2\<rparr>)"
    unfolding r1 by (simp add: newInterview_def)
  from r1' r2 show ?thesis by (intro conjI)
qed

section \<open>Interviews that are absent or belong to another candidate\<close>



section \<open>The duration of a scheduled interview\<close>

text \<open>
  Claim C8, as the code has it. The interview that \<open>schedule\<close> creates is stored and has
  status \<^verbatim>\<open>scheduled\<close>; its duration is 10 when the request omits the field and is the
  supplied value otherwise, whatever that value is; and \<open>endTime > scheduledAt\<close> holds
  for it exactly when that duration is positive.
\<close>

theorem schedule_duration:
  assumes "schedule st js now u body = (Inr d, st')"
  shows "duration d = (case req_duration body of None \<Rightarrow> 10 | Some x \<Rightarrow> x) \<and>
         status d = Scheduled \<and>
         d \<in> set (docs st') \<and>
         (scheduledAt d < endTime d) = (0 < duration d)"
proof -
  from schedule_InrD[OF assms] obtain jid t where
    d: "d = newInterview (nextId st) u jid t (case req_duration body of None \<Rightarrow> 10 | Some x \<Rightarrow> x)"
    and st': "st' = st\<lparr>docs := docs st @ [d], nextId := Suc (nextId st)\<rparr>"
    by blast
  from d have "duration d = (case req_duration body of None \<Rightarrow> 10 | Some x \<Rightarrow> x)"
    and "status d = Scheduled"
    by (simp_all add: newInterview_def)
  moreover from st' have "d \<in> set (docs st')" by simp
  moreover have "(scheduledAt d < endTime d) = (0 < duration d)"
    by (simp add: endTime_def)
  ultimately show ?thesis by blast
qed

text \<open>A request without a duration, on the empty store: the interview lasts 10 minutes.\<close>

theorem schedule_duration_witness:
  "schedule emptyStore sampleJobs 0 1
     \<lparr>req_jobId = Some 7, req_scheduledAt = Some 600000, req_duration = None\<rparr> =
     (Inr (newInterview 0 1 7 600000 10), \<lparr>docs = [newInterview 0 1 7 600000 10], nextId = 1\<rparr>) \<and>
   duration (newInterview 0 1 7 600000 10) = 10 \<and>
   scheduledAt (newInterview 0 1 7 600000 10) < endTime (newInterview 0 1 7 600000 10)"
proof -
  let ?body = "\<lparr>req_jobId = Some 7, req_scheduledAt = Some 600000, req_duration = None\<rparr>"
  let ?d = "newInterview 0 1 7 600000 10"
  let ?st' = "\<lparr>docs = [?d], nextId = 1\<rparr>"
  have run: "schedule emptyStore sampleJobs 0 1 ?body = (Inr ?d, ?st')"
    by (simp add: schedule_def Let_def emptyStore_def sampleJobs_def hasApplied_def
        checkTimeConflict_def)
  note t = schedule_duration [OF run]
  have dur: "duration ?d = (case req_duration ?body of None \<Rightarrow> 10 | Some x \<Rightarrow> x)"
    by (rule t[THEN conjunct1])
  have pos: "(scheduledAt ?d < endTime ?d) = (0 < duration ?d)"
    by (rule t[THEN conjunct2, THEN conjunct2, THEN conjunct2])
  from dur have dur': "duration ?d = 10" by simp
  with pos have "scheduledAt ?d < endTime ?d" by simp
  with run dur' show ?thesis by (intro conjI)
qed

text \<open>
  Claim C8 as stated makes every stored duration positive, for any value a caller
  supplies. A request with duration 0 passes every guard of \<open>schedule\<close>: the interview is
  stored with duration 0 and its \<open>endTime\<close> equals its \<open>scheduledAt\<close>.
\<close>

theorem schedule_zero_duration_counterexample:
  "schedule emptyStore sampleJobs 0 1
     \<lparr>req_jobId = Some 7, req_scheduledAt = Some 600000, req_duration = Some 0\<rparr> =
     (Inr (newInterview 0 1 7 600000 0), \<lparr>docs = [newInterview 0 1 7 600000 0], nextId = 1\<rparr>) \<and>
   \<not> 0 < duration (newInterview 0 1 7 600000 0) \<and>
   \<not> endTime (newInterview 0 1 7 600000 0) > scheduledAt (newInterview 0 1 7 600000 0)"
  by (simp add: schedule_def Let_def emptyStore_def sampleJobs_def hasApplied_def
      checkTimeConflict_def newInterview_def endTime_def)

section \<open>The pool of the conflict check\<close>

text \<open>
  Claim C1, as the code has it. The conflict check of \<open>schedule\<close> is evaluated against
  every stored interview in status \<^verbatim>\<open>scheduled\<close> or \<^verbatim>\<open>in-progress\<close>, whichever candidate
  holds it: once the job, the application and the instant pass, the answer is
  \<open>SlotConflict\<close> exactly when some stored interview matches the query, the query does
  not read the \<^verbatim>\<open>user\<close> field, and an active interview of any candidate whose slot
  overlaps the requested one gives \<open>SlotConflict\<close>. As a consequence, in every store that
  the operations can reach no two active interviews overlap at all (no instant lies in
  the slots of two of them), and so no two of one candidate do.
\<close>

theorem conflict_pool_is_global:
  assumes "reachable st"
  shows "exclusive (docs st) \<and>
         candidateExclusive (docs st) \<and>
         (\<forall>js now u jid t dur j. js jid = Some j \<and> hasApplied j u \<and> now < t \<longrightarrow>
            (fst (schedule st js now u
                    \<lparr>req_jobId = Some jid, req_scheduledAt = Some t, req_duration = dur\<rparr>)
               = Inl SlotConflict) =
            (\<exists>d\<in>set (docs st).
               conflictQuery t (t + (case dur of None \<Rightarrow> 10 | Some x \<Rightarrow> x) * 60 * 1000) None d)) \<and>
         (\<forall>js now u jid t dur j. js jid = Some j \<and> hasApplied j u \<and> now < t \<and>
            (\<exists>d\<in>set (docs st). active d \<and>
               overlap_spec t (t + (case dur of None \<Rightarrow> 10 | Some x \<Rightarrow> x) * 60 * 1000)
                 (scheduledAt d) (endTime d)) \<longrightarrow>
            fst (schedule st js now u
                   \<lparr>req_jobId = Some jid, req_scheduledAt = Some t, req_duration = dur\<rparr>)
              = Inl SlotConflict) \<and>
         (\<forall>s e x d v. conflictQuery s e x (d\<lparr>user := v\<rparr>) = conflictQuery s e x d) \<and>
         (\<forall>i j t. i < j \<and> j < length (docs st) \<and>
            active (docs st ! i) \<and> active (docs st ! j) \<and>
            scheduledAt (docs st ! i) \<le> t \<and> t < endTime (docs st ! i) \<longrightarrow>
            \<not> (scheduledAt (docs st ! j) \<le> t \<and> t < endTime (docs st ! j)))"
proof -
  from assms have inv: "storeInv st" by (rule reachable_storeInv)
  then have e: "exclusive (docs st)" by (simp add: storeInv_def)
  then have c: "candidateExclusive (docs st)" by (rule exclusive_imp_candidateExclusive)
  have q: "(fst (schedule st js now u
                    \<lparr>req_jobId = Some jid, req_scheduledAt = Some t, req_duration = dur\<rparr>)
               = Inl SlotConflict) =
            (\<exists>d\<in>set (docs st).
               conflictQuery t (t + (case dur of None \<Rightarrow> 10 | Some x \<Rightarrow> x) * 60 * 1000) None d)"
    if "js jid = Some j \<and> hasApplied j u \<and> now < t" for js now u jid t dur j
    using that
    by (simp add: schedule_present checkTimeConflict_def Let_def find_None_conv)
  have o: "fst (schedule st js now u
                   \<lparr>req_jobId = Some jid, req_scheduledAt = Some t, req_duration = dur\<rparr>)
              = Inl SlotConflict"
    if h: "js jid = Some j \<and> hasApplied j u \<and> now < t \<and>
            (\<exists>d\<in>set (docs st). active d \<and>
               overlap_spec t (t + (case dur of None \<Rightarrow> 10 | Some x \<Rightarrow> x) * 60 * 1000)
                 (scheduledAt d) (endTime d))" for js now u jid t dur j
  proof -
    from h have g: "js jid = Some j \<and> hasApplied j u \<and> now < t" by simp
    from h have "\<exists>d\<in>set (docs st).
        conflictQuery t (t + (case dur of None \<Rightarrow> 10 | Some x \<Rightarrow> x) * 60 * 1000) None d"
      using overlap_imp_conflictQuery by blast
    with q[of js jid j u now t dur, OF g] show ?thesis by simp
  qed
  have n: "conflictQuery s e x (d\<lparr>user := v\<rparr>) = conflictQuery s e x d" for s e x d v
    by (simp add: conflictQuery_def split: option.splits)
  have allq: "\<forall>js now u jid t dur j. js jid = Some j \<and> hasApplied j u \<and> now < t \<longrightarrow>
            (fst (schedule st js now u
                    \<lparr>req_jobId = Some jid, req_scheduledAt = Some t, req_duration = dur\<rparr>)
               = Inl SlotConflict) =
            (\<exists>d\<in>set (docs st).
               conflictQuery t (t + (case dur of None \<Rightarrow> 10 | Some x \<Rightarrow> x) * 60 * 1000) None d)"
    by (intro allI impI) (rule q)
  have allo: "\<forall>js now u jid t dur j. js jid = Some j \<and> hasApplied j u \<and> now < t \<and>
            (\<exists>d\<in>set (docs st). active d \<and>
               overlap_spec t (t + (case dur of None \<Rightarrow> 10 | Some x \<Rightarrow> x) * 60 * 1000)
                 (scheduledAt d) (endTime d)) \<longrightarrow>
            fst (schedule st js now u
                   \<lparr>req_jobId = Some jid, req_scheduledAt = Some t, req_duration = dur\<rparr>)
              = Inl SlotConflict"
    by (intro allI impI) (rule o)
  have alln: "\<forall>s e x d v. conflictQuery s e x (d\<lparr>user := v\<rparr>) = conflictQuery s e x d"
    by (intro allI) (rule n)
  have alli: "\<forall>i j t. i < j \<and> j < length (docs st) \<and>
            active (docs st ! i) \<and> active (docs st ! j) \<and>
            scheduledAt (docs st ! i) \<le> t \<and> t < endTime (docs st ! i) \<longrightarrow>
            \<not> (scheduledAt (docs st ! j) \<le> t \<and> t < endTime (docs st ! j))"
  proof (intro allI impI)
    fix i j t
    assume h: "i < j \<and> j < length (docs st) \<and>
            active (docs st ! i) \<and> active (docs st ! j) \<and>
            scheduledAt (docs st ! i) \<le> t \<and> t < endTime (docs st ! i)"
    then have h1: "i < j" and h2: "j < length (docs st)"
      and h3: "active (docs st ! i)" and h4: "active (docs st ! j)"
      and h5: "scheduledAt (docs st ! i) \<le> t" and h6: "t < endTime (docs st ! i)"
      by simp_all
    show "\<not> (scheduledAt (docs st ! j) \<le> t \<and> t < endTime (docs st ! j))"
      by (rule exclusive_no_common_instant[OF e h1 h2 h3 h4 h5 h6])
  qed
  from e c allq allo alln alli show ?thesis by (intro conjI)
qed

text \<open>
  After candidate 1 has booked \<open>[600000, 1200000)\<close> the store is reachable and exclusive,
  and the request of candidate 2 for \<open>[900000, 1500000)\<close> is refused.
\<close>

theorem conflict_pool_is_global_witness:
  "reachable \<lparr>docs = [newInterview 0 1 7 600000 10], nextId = 1\<rparr> \<and>
   exclusive (docs \<lparr>docs = [newInterview 0 1 7 600000 10], nextId = 1\<rparr>) \<and>
   fst (schedule \<lparr>docs = [newInterview 0 1 7 600000 10], nextId = 1\<rparr> sampleJobs 0 2
          \<lparr>req_jobId = Some 7, req_scheduledAt = Some 900000, req_duration = None\<rparr>)
     = Inl SlotConflict"
proof -
  let ?st = "\<lparr>docs = [newInterview 0 1 7 600000 10], nextId = 1\<rparr>"
  let ?b = "\<lparr>req_jobId = Some 7, req_scheduledAt = Some 600000, req_duration = None\<rparr>"
  have run: "snd (schedule emptyStore sampleJobs 0 1 ?b) = ?st"
    by (simp add: schedule_def Let_def emptyStore_def sampleJobs_def hasApplied_def
        checkTimeConflict_def)
  have "reachable (snd (schedule emptyStore sampleJobs 0 1 ?b))"
    by (rule r_schedule[OF r_init])
  then have reach: "reachable ?st" unfolding run .
  note t = conflict_pool_is_global [OF reach]
  have e: "exclusive (docs ?st)" by (rule t[THEN conjunct1])
  have j7: "sampleJobs 7 = Some \<lparr>applications = [\<lparr>app_user = 1\<rparr>, \<lparr>app_user = 2\<rparr>]\<rparr>"
    by (simp add: sampleJobs_def)
  have a2: "hasApplied \<lparr>applications = [\<lparr>app_user = 1\<rparr>, \<lparr>app_user = 2\<rparr>]\<rparr> 2"
    by (simp add: hasApplied_def)
  have lt: "(0::int) < 900000" by simp
  have c: "(fst (schedule ?st sampleJobs 0 2
              \<lparr>req_jobId = Some 7, req_scheduledAt = Some 900000, req_duration = None\<rparr>)
             = Inl SlotConflict) =
           (\<exists>d\<in>set (docs ?st).
              conflictQuery 900000
                (900000 + (case None of None \<Rightarrow> 10 | Some x \<Rightarrow> x) * 60 * 1000) None d)"
    by (rule t[THEN conjunct2, THEN conjunct2, THEN conjunct1, rule_format])
       (rule conjI, rule j7, rule conjI, rule a2, rule lt)
  have rhs: "\<exists>d\<in>set (docs ?st).
              conflictQuery 900000
                (900000 + (case None of None \<Rightarrow> 10 | Some x \<Rightarrow> x) * 60 * 1000) None d"
    by (simp add: conflictQuery_def newInterview_def)
  from c rhs have r: "fst (schedule ?st sampleJobs 0 2
              \<lparr>req_jobId = Some 7, req_scheduledAt = Some 900000, req_duration = None\<rparr>)
             = Inl SlotConflict"
    by (rule iffD2)
  from reach e r show ?thesis by (intro conjI)
qed

text \<open>
  Claim C1 as stated scopes the check to the caller's own interviews. Candidate 1 books
  \<open>[600000, 1200000)\<close>; candidate 2, who holds no interview at all, asks for
  \<open>[900000, 1500000)\<close> and is answered \<open>SlotConflict\<close>.
\<close>

theorem other_candidate_conflict_counterexample:
  "schedule emptyStore sampleJobs 0 1
     \<lparr>req_jobId = Some 7, req_scheduledAt = Some 600000, req_duration = None\<rparr> =
     (Inr (newInterview 0 1 7 600000 10), \<lparr>docs = [newInterview 0 1 7 600000 10], nextId = 1\<rparr>) \<and>
   filter (\<lambda>d. user d = 2) (docs \<lparr>docs = [newInterview 0 1 7 600000 10], nextId = 1\<rparr>) = [] \<and>
   schedule \<lparr>docs = [newInterview 0 1 7 600000 10], nextId = 1\<rparr> sampleJobs 0 2
     \<lparr>req_jobId = Some 7, req_scheduledAt = Some 900000, req_duration = None\<rparr> =
     (Inl SlotConflict, \<lparr>docs = [newInterview 0 1 7 600000 10], nextId = 1\<rparr>)"
  by (simp add: schedule_def Let_def emptyStore_def sampleJobs_def hasApplied_def
      checkTimeConflict_def conflictQuery_def newInterview_def)

end
